theory Spec2Isabelle
  imports Complex_Main "HOL-Library.Multiset" "HOL-Library.Log_Nat"
begin

section \<open>Python values and exceptions\<close>

text \<open>
  The exceptions that \<^verbatim>\<open>tools/prepare_sfm.py\<close> can raise. None of them is caught
  anywhere in the file, so every function of the model returns \<open>error + 'a\<close> and the first
  \<open>Inl\<close> ends the computation.
\<close>

datatype error = KeyError | IndexError | TypeError | ValueError

text \<open>
  A Python float: a finite number, or NaN (which pandas also uses for a missing cell).
\<close>

datatype pyfloat = Fl real | NaN

text \<open>
  The objects \<^verbatim>\<open>json.load\<close> builds: \<^verbatim>\<open>None\<close>, booleans, integers, floats, strings,
  lists and dictionaries with string keys. A dictionary is an association list that is read
  with \<open>map_of\<close>.
\<close>

datatype pyval =
    PNone
  | PBool bool
  | PInt int
  | PFloat pyfloat
  | PStr string
  | PList "pyval list"
  | PDict "(string \<times> pyval) list"

text \<open>Sequencing of computations that may raise: the first exception propagates.\<close>

definition ebind :: "error + 'a \<Rightarrow> ('a \<Rightarrow> error + 'b) \<Rightarrow> error + 'b" where
  "ebind m f = (case m of Inl e \<Rightarrow> Inl e | Inr x \<Rightarrow> f x)"

fun emap :: "('a \<Rightarrow> error + 'b) \<Rightarrow> 'a list \<Rightarrow> error + 'b list" where
  "emap f [] = Inr []"
| "emap f (x # xs) = ebind (f x) (\<lambda>y. ebind (emap f xs) (\<lambda>ys. Inr (y # ys)))"

text \<open>\<^verbatim>\<open>v[key]\<close> with a string key.\<close>

fun getitem :: "pyval \<Rightarrow> string \<Rightarrow> error + pyval" where
  "getitem (PDict kvs) k = (case map_of kvs k of None \<Rightarrow> Inl KeyError | Some v \<Rightarrow> Inr v)"
| "getitem _ k = Inl TypeError"

text \<open>
  \<^verbatim>\<open>v[i]\<close> with a non-negative integer literal \<open>i\<close>. A dictionary has string keys only, so
  an integer key is absent.
\<close>

fun getindex :: "pyval \<Rightarrow> nat \<Rightarrow> error + pyval" where
  "getindex (PList xs) i = (if i < length xs then Inr (xs ! i) else Inl IndexError)"
| "getindex (PStr s) i = (if i < length s then Inr (PStr [s ! i]) else Inl IndexError)"
| "getindex (PDict kvs) i = Inl KeyError"
| "getindex _ i = Inl TypeError"

text \<open>\<^verbatim>\<open>xs[i]\<close> on a list of floats.\<close>

definition nth_float :: "pyfloat list \<Rightarrow> nat \<Rightarrow> error + pyfloat" where
  "nth_float xs i = (if i < length xs then Inr (xs ! i) else Inl IndexError)"

text \<open>
  The builtin \<^verbatim>\<open>float(v)\<close>. What it makes of a string is the parameter \<open>sf\<close>
  (\<open>None\<close> where the text is no number, a \<^verbatim>\<open>ValueError\<close>). An integer is taken to its own
  value, which is what the conversion gives up to \<open>2 ^ 53\<close> in magnitude.
\<close>

fun py_float :: "(string \<Rightarrow> pyfloat option) \<Rightarrow> pyval \<Rightarrow> error + pyfloat" where
  "py_float sf (PFloat x) = Inr x"
| "py_float sf (PInt i) = Inr (Fl (of_int i))"
| "py_float sf (PBool b) = Inr (Fl (if b then 1 else 0))"
| "py_float sf (PStr s) = (case sf s of None \<Rightarrow> Inl ValueError | Some x \<Rightarrow> Inr x)"
| "py_float sf _ = Inl TypeError"

text \<open>
  The elements a \<^verbatim>\<open>for\<close> comprehension draws from a value: the items of a list, the
  characters of a string, the keys of a dictionary.
\<close>

fun py_iter :: "pyval \<Rightarrow> error + pyval list" where
  "py_iter (PList xs) = Inr xs"
| "py_iter (PStr s) = Inr (map (\<lambda>c. PStr [c]) s)"
| "py_iter (PDict kvs) = Inr (map PStr (remdups (map fst kvs)))"
| "py_iter _ = Inl TypeError"

section \<open>Intrinsic builder\<close>

text \<open>
  \<^verbatim>\<open>prepare_intrinsic\<close>: the three reads happen in the order \<open>cx\<close>, \<open>cy\<close>, \<open>f\<close>; the skew
  \<open>s\<close> and the constants of the matrix are Python integers.
\<close>

definition prepare_intrinsic :: "(string \<Rightarrow> pyfloat option) \<Rightarrow> pyval \<Rightarrow> error + pyval list list" where
  "prepare_intrinsic sf intrinsic =
     ebind (ebind (ebind (ebind (getitem intrinsic ''principalPoint'') (\<lambda>p. getindex p 0))
                         (\<lambda>p. getindex p 0)) (py_float sf)) (\<lambda>cx.
     ebind (ebind (ebind (ebind (getitem intrinsic ''principalPoint'') (\<lambda>p. getindex p 0))
                         (\<lambda>p. getindex p 1)) (py_float sf)) (\<lambda>cy.
     ebind (ebind (ebind (getitem intrinsic ''focalLength'') (\<lambda>p. getindex p 0))
                  (py_float sf)) (\<lambda>f.
     let s = PInt 0 in
     Inr [[PFloat f, s, PFloat cx],
          [PInt 0, PFloat f, PFloat cy],
          [PInt 0, PInt 0, PInt 1]])))"

section \<open>Pose builder\<close>

text \<open>
  One row of the matrix: three reads of \<open>rotation\<close>, then one of \<open>transform\<close>, left to
  right as the list display evaluates them.
\<close>

definition matrix_row :: "pyfloat list \<Rightarrow> pyfloat list \<Rightarrow> nat \<Rightarrow> nat \<Rightarrow> nat \<Rightarrow> nat \<Rightarrow> error + pyval list" where
  "matrix_row rotation transform a b c d =
     ebind (nth_float rotation a) (\<lambda>ra.
     ebind (nth_float rotation b) (\<lambda>rb.
     ebind (nth_float rotation c) (\<lambda>rc.
     ebind (nth_float transform d) (\<lambda>td.
     Inr [PFloat ra, PFloat rb, PFloat rc, PFloat td]))))"

text \<open>
  \<^verbatim>\<open>prepare_rototranslation\<close>. The parameter \<open>loads_str\<close> is the library composite
  \<^verbatim>\<open>json.loads(str(v).replace("'", "\""))\<close> of line 79: the text form of the value, its
  single quotes turned into double quotes, parsed again; it raises where that text is not
  JSON. Everything after it is the function's own code: two lookups under
  \<^verbatim>\<open>"transform"\<close>, the conversion of every element of both lists, then twelve reads.
\<close>

definition prepare_rototranslation ::
  "(pyval \<Rightarrow> error + pyval) \<Rightarrow> (string \<Rightarrow> pyfloat option) \<Rightarrow> pyval \<Rightarrow> error + pyval list list" where
  "prepare_rototranslation loads_str sf original =
     ebind (ebind (getitem original ''pose'') loads_str) (\<lambda>data.
     ebind (ebind (getitem data ''transform'') (\<lambda>t. getitem t ''rotation'')) (\<lambda>rotation.
     ebind (ebind (getitem data ''transform'') (\<lambda>t. getitem t ''center'')) (\<lambda>transform.
     ebind (ebind (py_iter rotation) (emap (py_float sf))) (\<lambda>rotation.
     ebind (ebind (py_iter transform) (emap (py_float sf))) (\<lambda>transform.
     ebind (matrix_row rotation transform 0 1 2 0) (\<lambda>r0.
     ebind (matrix_row rotation transform 3 4 5 1) (\<lambda>r1.
     ebind (matrix_row rotation transform 6 7 8 2) (\<lambda>r2.
     Inr [r0, r1, r2, [PInt 0, PInt 0, PInt 0, PInt 1]]))))))))"

section \<open>The input document and the loader\<close>

text \<open>
  A scalar of the document as pandas keeps it in a table: a number or a string.
\<close>

datatype cell = Num pyfloat | Text string

fun cell_float :: "(string \<Rightarrow> pyfloat option) \<Rightarrow> cell \<Rightarrow> error + pyfloat" where
  "cell_float sf (Num x) = Inr x"
| "cell_float sf (Text s) = (case sf s of None \<Rightarrow> Inl ValueError | Some x \<Rightarrow> Inr x)"

fun cell_value :: "cell \<Rightarrow> pyval" where
  "cell_value (Num x) = PFloat x"
| "cell_value (Text s) = PStr s"

text \<open>
  The parsed \<^verbatim>\<open>sfm.json\<close>, with the four keys and the fields the program reads:
  \<open>structure_X\<close> holds the \<^verbatim>\<open>X\<close> list of every element of \<^verbatim>\<open>structure\<close> (the
  comprehension of line 31).
\<close>

record view =
  view_poseId :: cell
  path :: string
  height :: cell
  width :: cell

record pose_row =
  poseId :: cell
  pose :: pyval

record intrinsic_row =
  principalPoint :: pyval
  focalLength :: pyval

record sfm =
  structure_X :: "cell list list"
  views :: "view list"
  poses :: "pose_row list"
  intrinsics :: "intrinsic_row list"

text \<open>A table of floats: its column names and its rows.\<close>

record frame =
  columns :: "string list"
  cells :: "pyfloat list list"

text \<open>
  \<^verbatim>\<open>pd.DataFrame(rows, columns=["x", "y", "z"]).astype(float)\<close> on a list of lists. The
  constructor makes the table as wide as the longest row, fills the shorter rows with
  missing values, and raises \<^verbatim>\<open>ValueError\<close> when that width is not the number of column
  names passed; no rows give an empty table with the three columns. \<^verbatim>\<open>astype\<close> then
  converts every cell, a missing one to NaN.
\<close>

definition pad_row :: "nat \<Rightarrow> cell list \<Rightarrow> cell option list" where
  "pad_row k r = map Some r @ replicate (k - length r) None"

fun astype_float :: "(string \<Rightarrow> pyfloat option) \<Rightarrow> cell option \<Rightarrow> error + pyfloat" where
  "astype_float sf None = Inr NaN"
| "astype_float sf (Some c) = cell_float sf c"

definition row_width :: "cell list list \<Rightarrow> nat" where
  "row_width rows = foldr (\<lambda>r k. max (length r) k) rows 0"

definition DataFrame_xyz :: "(string \<Rightarrow> pyfloat option) \<Rightarrow> cell list list \<Rightarrow> error + frame" where
  "DataFrame_xyz sf rows =
     (if rows = [] then Inr \<lparr>columns = [''x'', ''y'', ''z''], cells = []\<rparr>
      else let k = row_width rows in
        if k \<noteq> 3 then Inl ValueError
        else ebind (emap (emap (astype_float sf)) (map (pad_row k) rows))
               (\<lambda>fs. Inr \<lparr>columns = [''x'', ''y'', ''z''], cells = fs\<rparr>))"

text \<open>
  The same constructor on a list of scalars: a single column of data, which three column
  names do not fit unless the list is empty.
\<close>

definition DataFrame_xyz_scalars :: "pyfloat list \<Rightarrow> error + frame" where
  "DataFrame_xyz_scalars vs =
     (if vs = [] then Inr \<lparr>columns = [''x'', ''y'', ''z''], cells = []\<rparr> else Inl ValueError)"

text \<open>
  \<^verbatim>\<open>df[name].to_list()\<close>: the column of that name, \<^verbatim>\<open>KeyError\<close> when there is none.
  Names are compared as strings, so \<^verbatim>\<open>"X"\<close> is not \<^verbatim>\<open>"x"\<close>.
\<close>

fun column_index :: "string list \<Rightarrow> string \<Rightarrow> nat option" where
  "column_index [] name = None"
| "column_index (c # cs) name = (if c = name then Some 0 else map_option Suc (column_index cs name))"

definition column_list :: "frame \<Rightarrow> string \<Rightarrow> error + pyfloat list" where
  "column_list df name =
     (case column_index (columns df) name of
        None \<Rightarrow> Inl KeyError
      | Some i \<Rightarrow> Inr (map (\<lambda>r. r ! i) (cells df)))"

text \<open>
  The view table: \<^verbatim>\<open>pd.DataFrame(data['views']).set_index('poseId')\<close>. An empty list
  gives a table without columns, on which \<^verbatim>\<open>set_index\<close> raises \<^verbatim>\<open>KeyError\<close>. Otherwise
  every view is one row, labelled with its \<^verbatim>\<open>poseId\<close>; \<^verbatim>\<open>set_index\<close> does not check
  that labels are unique (\<^verbatim>\<open>verify_integrity\<close> is off by default), so the table is an
  association list in the order of the document, duplicates included.
\<close>

definition set_index_poseId :: "view list \<Rightarrow> error + (cell \<times> view) list" where
  "set_index_poseId vs = (if vs = [] then Inl KeyError else Inr (map (\<lambda>v. (view_poseId v, v)) vs))"

text \<open>
  \<^verbatim>\<open>extrapolate_json\<close>, from the parsed document on. The pose and intrinsic tables keep
  the rows of the document in order.
\<close>

definition extrapolate_json ::
  "(string \<Rightarrow> pyfloat option) \<Rightarrow> sfm \<Rightarrow> error + (frame \<times> (cell \<times> view) list \<times> pose_row list \<times> intrinsic_row list)" where
  "extrapolate_json sf data =
     ebind (DataFrame_xyz sf (structure_X data)) (\<lambda>pd_structure.
     ebind (set_index_poseId (views data)) (\<lambda>images.
     Inr (pd_structure, images, poses data, intrinsics data)))"

section \<open>Assembler\<close>

text \<open>
  \<^verbatim>\<open>images.loc[id]\<close>: the rows labelled \<open>id\<close>. No such row raises \<^verbatim>\<open>KeyError\<close>; one row
  comes back as that row (a Series), several as a table of all of them.
\<close>

datatype 'a located = One 'a | Many "'a list"

definition loc :: "(cell \<times> view) list \<Rightarrow> cell \<Rightarrow> error + view located" where
  "loc images k =
     (case map snd (filter (\<lambda>kv. fst kv = k) images) of
        [] \<Rightarrow> Inl KeyError
      | [v] \<Rightarrow> Inr (One v)
      | vs \<Rightarrow> Inr (Many vs))"

text \<open>\<^verbatim>\<open>sel[field]\<close> on the result of \<^verbatim>\<open>loc\<close>: a cell of the row, or a column of the table.\<close>

fun field :: "(view \<Rightarrow> 'a) \<Rightarrow> view located \<Rightarrow> 'a located" where
  "field f (One v) = One (f v)"
| "field f (Many vs) = Many (map f vs)"

text \<open>
  \<^verbatim>\<open>float(...)\<close> of such a selection: a column converts only when it holds a single
  value, otherwise \<^verbatim>\<open>TypeError\<close>.
\<close>

fun located_float :: "(string \<Rightarrow> pyfloat option) \<Rightarrow> cell located \<Rightarrow> error + pyfloat" where
  "located_float sf (One c) = cell_float sf c"
| "located_float sf (Many cs) = (case cs of [c] \<Rightarrow> cell_float sf c | _ \<Rightarrow> Inl TypeError)"

record image =
  image_path :: "string located"
  T_pointcloud_camera :: "pyval list list"
  camera_intrinsics :: "pyval list list"
  camera_height :: pyfloat
  camera_width :: pyfloat
  camera_id :: int

text \<open>
  What the builders receive in the loop: the row of the pose table as a mapping from column
  name to cell, and the whole intrinsic table as a mapping from column name to column (an
  empty table has no column).
\<close>

definition row_series :: "pose_row \<Rightarrow> pyval" where
  "row_series r = PDict [(''poseId'', cell_value (poseId r)), (''pose'', pose r)]"

definition intrinsic_table :: "intrinsic_row list \<Rightarrow> pyval" where
  "intrinsic_table rs =
     (if rs = [] then PDict []
      else PDict [(''principalPoint'', PList (map principalPoint rs)),
                  (''focalLength'', PList (map focalLength rs))])"

text \<open>The body of the loop of lines 107 to 118, statement by statement.\<close>

definition new_pose ::
  "(pyval \<Rightarrow> error + pyval) \<Rightarrow> (string \<Rightarrow> pyfloat option) \<Rightarrow> (cell \<times> view) list \<Rightarrow> intrinsic_row list
     \<Rightarrow> pose_row \<Rightarrow> error + image" where
  "new_pose loads_str sf images intrinsic i =
     (let ident = poseId i in
      ebind (loc images ident) (\<lambda>sel. let p = field path sel in
      ebind (prepare_rototranslation loads_str sf (row_series i)) (\<lambda>T.
      ebind (prepare_intrinsic sf (intrinsic_table intrinsic)) (\<lambda>K.
      ebind (ebind (loc images ident) (\<lambda>sel. located_float sf (field height sel))) (\<lambda>h.
      ebind (ebind (loc images ident) (\<lambda>sel. located_float sf (field width sel))) (\<lambda>w.
      Inr \<lparr>image_path = p, T_pointcloud_camera = T, camera_intrinsics = K,
           camera_height = h, camera_width = w, camera_id = 0\<rparr>))))))"

text \<open>The loop: one record per pose, in the order of the pose table; the first exception ends it.\<close>

definition list_images_of ::
  "(pyval \<Rightarrow> error + pyval) \<Rightarrow> (string \<Rightarrow> pyfloat option) \<Rightarrow> (cell \<times> view) list \<Rightarrow> intrinsic_row list
     \<Rightarrow> pose_row list \<Rightarrow> error + image list" where
  "list_images_of loads_str sf images intrinsic ps = emap (new_pose loads_str sf images intrinsic) ps"

section \<open>Writer and splitter\<close>

text \<open>
  \<^verbatim>\<open>random.shuffle\<close>: for \<open>i\<close> from the last index down to 1, exchange the items at \<open>i\<close>
  and at a position drawn from \<open>0..i\<close>. The draws are the parameter \<open>randbelow\<close>, reduced
  into that range.
\<close>

definition swap :: "nat \<Rightarrow> nat \<Rightarrow> 'a list \<Rightarrow> 'a list" where
  "swap i j x = x[i := x ! j, j := x ! i]"

fun shuffle_from :: "(nat \<Rightarrow> nat) \<Rightarrow> nat \<Rightarrow> 'a list \<Rightarrow> 'a list" where
  "shuffle_from randbelow 0 x = x"
| "shuffle_from randbelow (Suc i) x =
     shuffle_from randbelow i (swap (Suc i) (randbelow (Suc (Suc i)) mod Suc (Suc i)) x)"

definition shuffle :: "(nat \<Rightarrow> nat) \<Rightarrow> 'a list \<Rightarrow> 'a list" where
  "shuffle randbelow x = shuffle_from randbelow (length x - 1) x"

text \<open>
  The arithmetic of \<^verbatim>\<open>int(len(list_images) * 0.8)\<close> in IEEE double precision. A
  non-negative double is an integer of at most 53 bits times a power of two, so rounding
  is done on integers: \<open>round53\<close> keeps the 53 leading bits of its argument, to nearest,
  ties to even. The literal \<^verbatim>\<open>0.8\<close> is the double \<open>3602879701896397 / 2 ^ 52\<close>; the length
  is converted, the product is rounded, and \<^verbatim>\<open>int\<close> drops the fraction.
\<close>

fun bitlength :: "nat \<Rightarrow> nat" where
  "bitlength n = (if n = 0 then 0 else Suc (bitlength (n div 2)))"

declare bitlength.simps [simp del]

definition round53 :: "nat \<Rightarrow> nat" where
  "round53 m =
     (let s = bitlength m - 53; q = m div 2 ^ s; r = m mod 2 ^ s
      in if 2 ^ s < 2 * r \<or> (2 * r = 2 ^ s \<and> odd q) then (q + 1) * 2 ^ s else q * 2 ^ s)"

definition split_index :: "nat \<Rightarrow> nat" where
  "split_index n = round53 (round53 n * 3602879701896397) div 2 ^ 52"

text \<open>Lines 122 to 126: shuffle, then cut at the split index.\<close>

definition train_val :: "(nat \<Rightarrow> nat) \<Rightarrow> 'a list \<Rightarrow> 'a list \<times> 'a list" where
  "train_val randbelow list_images =
     (let shuffled = shuffle randbelow list_images;
          split = split_index (length shuffled)
      in (take split shuffled, drop split shuffled))"

text \<open>The three files the program writes; \<open>None\<close> is a file this run has not written.\<close>

record outputs =
  point_cloud_parquet :: "frame option"
  train_json :: "image list option"
  val_json :: "image list option"

text \<open>
  \<^verbatim>\<open>convert_sfm_to_parquet\<close>: the exception that ended the run, if any, and the files as
  the run leaves them.
\<close>

definition convert_sfm_to_parquet ::
  "(pyval \<Rightarrow> error + pyval) \<Rightarrow> (string \<Rightarrow> pyfloat option) \<Rightarrow> (nat \<Rightarrow> nat) \<Rightarrow> sfm \<Rightarrow> outputs
     \<Rightarrow> error option \<times> outputs" where
  "convert_sfm_to_parquet loads_str sf randbelow data out =
     (case extrapolate_json sf data of
        Inl e \<Rightarrow> (Some e, out)
      | Inr (pd_structure, images, pose_table, intrinsic) \<Rightarrow>
     (case ebind (column_list pd_structure ''X'') DataFrame_xyz_scalars of
        Inl e \<Rightarrow> (Some e, out)
      | Inr point_cloud_df \<Rightarrow>
     (let out1 = out\<lparr>point_cloud_parquet := Some point_cloud_df\<rparr> in
      case list_images_of loads_str sf images intrinsic pose_table of
        Inl e \<Rightarrow> (Some e, out1)
      | Inr list_images \<Rightarrow>
     (let (train, val) = train_val randbelow list_images
      in (None, out1\<lparr>train_json := Some train, val_json := Some val\<rparr>)))))"

section \<open>Example inputs\<close>

text \<open>
  Instances of the parameters for the examples below: a string conversion that takes no
  text for a number (the examples hold numbers only), and a generator whose every draw is 0.
  The re-parse of line 79 is instantiated with \<open>Inr\<close>: a value made of dictionaries, lists
  and numbers reads back as itself.
\<close>

definition reject_text :: "string \<Rightarrow> pyfloat option" where
  "reject_text s = None"

definition draw_zero :: "nat \<Rightarrow> nat" where
  "draw_zero i = 0"

definition no_outputs :: outputs where
  "no_outputs = \<lparr>point_cloud_parquet = None, train_json = None, val_json = None\<rparr>"

text \<open>The intrinsic record and the pose of the examples of the specification.\<close>

definition example_intrinsic :: pyval where
  "example_intrinsic =
     PDict [(''principalPoint'', PList [PList [PFloat (Fl 100), PFloat (Fl 50)]]),
            (''focalLength'', PList [PFloat (Fl 800)])]"

definition example_transform :: "pyval list \<Rightarrow> pyval list \<Rightarrow> pyval" where
  "example_transform rotation center =
     PDict [(''transform'', PDict [(''rotation'', PList rotation), (''center'', PList center)])]"

definition example_pose :: pyval where
  "example_pose =
     PDict [(''poseId'', PStr ''7''),
            (''pose'', example_transform
               [PInt 1, PInt 0, PInt 0, PInt 0, PInt 1, PInt 0, PInt 0, PInt 0, PInt 1]
               [PInt 1, PInt 2, PInt 3])]"

definition short_pose :: pyval where
  "short_pose =
     PDict [(''poseId'', PStr ''7''),
            (''pose'', example_transform [PInt 1, PInt 0] [PInt 1, PInt 2, PInt 3])]"

text \<open>Views and documents: a well-formed one, one with a short point, one with a repeated view.\<close>

definition view_a :: view where
  "view_a = \<lparr>view_poseId = Text ''7'', path = ''a.jpg'', height = Num (Fl 480), width = Num (Fl 640)\<rparr>"

definition view_b :: view where
  "view_b = \<lparr>view_poseId = Text ''7'', path = ''b.jpg'', height = Num (Fl 480), width = Num (Fl 640)\<rparr>"

definition pose_7 :: pose_row where
  "pose_7 = \<lparr>poseId = Text ''7'',
             pose = example_transform
               [PInt 1, PInt 0, PInt 0, PInt 0, PInt 1, PInt 0, PInt 0, PInt 0, PInt 1]
               [PInt 1, PInt 2, PInt 3]\<rparr>"

definition pose_8 :: pose_row where
  "pose_8 = pose_7\<lparr>poseId := Text ''8''\<rparr>"

definition intrinsic_0 :: intrinsic_row where
  "intrinsic_0 = \<lparr>principalPoint = PList [PFloat (Fl 100), PFloat (Fl 50)], focalLength = PFloat (Fl 800)\<rparr>"

definition valid_document :: sfm where
  "valid_document =
     \<lparr>structure_X = [[Num (Fl 1), Num (Fl 2), Num (Fl 3)], [Num (Fl 4), Num (Fl 5), Num (Fl 6)]],
      views = [view_a], poses = [pose_7], intrinsics = [intrinsic_0]\<rparr>"

definition ragged_document :: sfm where
  "ragged_document =
     valid_document\<lparr>structure_X := [[Num (Fl 1), Num (Fl 2), Num (Fl 3)], [Num (Fl 4), Num (Fl 5)]]\<rparr>"

definition wide_document :: sfm where
  "wide_document =
     valid_document\<lparr>structure_X := [[Num (Fl 1), Num (Fl 2), Num (Fl 3), Num (Fl 4)]]\<rparr>"

definition repeated_view_document :: sfm where
  "repeated_view_document = valid_document\<lparr>views := [view_a, view_b]\<rparr>"

text \<open>A re-parse that fails on every text, and five assembled records with different paths.\<close>

definition unparsable :: "pyval \<Rightarrow> error + pyval" where
  "unparsable v = Inl ValueError"

definition example_image :: "string \<Rightarrow> image" where
  "example_image p =
     \<lparr>image_path = One p, T_pointcloud_camera = [], camera_intrinsics = [],
      camera_height = Fl 480, camera_width = Fl 640, camera_id = 0\<rparr>"

definition five_images :: "image list" where
  "five_images = map example_image [''a.jpg'', ''b.jpg'', ''c.jpg'', ''d.jpg'', ''e.jpg'']"

section \<open>Sequencing lemmas\<close>

lemma emap_length: "emap f xs = Inr ys \<Longrightarrow> length ys = length xs"
  by (induction xs arbitrary: ys) (auto simp: ebind_def split: sum.splits)

lemma emap_nth: "emap f xs = Inr ys \<Longrightarrow> i < length xs \<Longrightarrow> f (xs ! i) = Inr (ys ! i)"
  by (induction xs arbitrary: ys i) (auto simp: ebind_def nth_Cons split: sum.splits nat.splits)

lemma emap_total: "(\<And>x. x \<in> set xs \<Longrightarrow> \<exists>y. f x = Inr y) \<Longrightarrow> \<exists>ys. emap f xs = Inr ys"
  by (induction xs) (fastforce simp: ebind_def)+

lemma emap_error: "x \<in> set xs \<Longrightarrow> f x = Inl e \<Longrightarrow> \<exists>e'. emap f xs = Inl e'"
  by (induction xs) (auto simp: ebind_def split: sum.splits)

section \<open>The intrinsic matrix\<close>

text \<open>
  C6. For an intrinsic record whose \<^verbatim>\<open>principalPoint\<close> starts with a pair \<open>[cx, cy]\<close> and
  whose \<^verbatim>\<open>focalLength\<close> starts with a scalar \<open>f\<close>, each of them convertible to float,
  \<^verbatim>\<open>prepare_intrinsic\<close> returns \<open>[[f, 0, cx], [0, f, cy], [0, 0, 1]]\<close>: zero skew and the
  same focal term at both diagonal positions.
\<close>

theorem prepare_intrinsic_matrix:
  assumes "map_of kvs ''principalPoint'' = Some (PList (PList (cx # cy # rest) # ps))"
    and "map_of kvs ''focalLength'' = Some (PList (f # fs))"
    and "py_float sf cx = Inr a" and "py_float sf cy = Inr b" and "py_float sf f = Inr c"
  shows "prepare_intrinsic sf (PDict kvs) =
           Inr [[PFloat c, PInt 0, PFloat a], [PInt 0, PFloat c, PFloat b], [PInt 0, PInt 0, PInt 1]]"
  using assms by (simp add: prepare_intrinsic_def ebind_def)

theorem prepare_intrinsic_matrix_witness:
  "prepare_intrinsic reject_text example_intrinsic
   = Inr [[PFloat (Fl 800), PInt 0, PFloat (Fl 100)],
          [PInt 0, PFloat (Fl 800), PFloat (Fl 50)],
          [PInt 0, PInt 0, PInt 1]]"
  using prepare_intrinsic_matrix
    [of "[(''principalPoint'', PList [PList [PFloat (Fl 100), PFloat (Fl 50)]]),
          (''focalLength'', PList [PFloat (Fl 800)])]"
        "PFloat (Fl 100)" "PFloat (Fl 50)" "[]" "[]" "PFloat (Fl 800)" "[]" reject_text
        "Fl 100" "Fl 50" "Fl 800"]
  by (simp add: example_intrinsic_def)

section \<open>The point-cloud table\<close>

lemma extrapolate_json_columns:
  "extrapolate_json sf data = Inr (st, im, ps, intr) \<Longrightarrow> columns st = [''x'', ''y'', ''z'']"
  by (auto simp: extrapolate_json_def DataFrame_xyz_def ebind_def Let_def
           split: if_splits sum.splits)

text \<open>
  C2. Whenever \<^verbatim>\<open>extrapolate_json\<close> succeeds, \<^verbatim>\<open>convert_sfm_to_parquet\<close> ends with a
  \<^verbatim>\<open>KeyError\<close> at line 101, where it asks the structure table for a column \<^verbatim>\<open>"X"\<close> while
  the loader named the columns x, y, z; none of the three output files has been written.
\<close>

theorem convert_raises_KeyError:
  "extrapolate_json sf data = Inr r \<Longrightarrow>
     convert_sfm_to_parquet loads_str sf randbelow data out = (Some KeyError, out)"
  by (cases r)
     (auto simp: convert_sfm_to_parquet_def column_list_def ebind_def dest!: extrapolate_json_columns)

section \<open>The pose matrix\<close>

text \<open>
  C7. For a pose record whose re-parsed transform has a rotation list of at least 9 numbers
  and a center list of at least 3, \<^verbatim>\<open>prepare_rototranslation\<close> returns the 4 by 4 matrix
  with the first nine rotation values row by row in the upper-left block, the first three
  center values in the last column, and the bottom row \<open>[0, 0, 0, 1]\<close>. The lists
  \<open>rotation\<close> and \<open>center\<close> are the float values of \<open>rs\<close> and \<open>cs\<close>, element by element.
\<close>

theorem prepare_rototranslation_matrix:
  assumes "getitem original ''pose'' = Inr p" and "loads_str p = Inr data"
    and "getitem data ''transform'' = Inr t"
    and "getitem t ''rotation'' = Inr (PList rs)" and "getitem t ''center'' = Inr (PList cs)"
    and "emap (py_float sf) rs = Inr rotation" and "emap (py_float sf) cs = Inr center"
    and "9 \<le> length rs" and "3 \<le> length cs"
  shows "prepare_rototranslation loads_str sf original =
     Inr [[PFloat (rotation ! 0), PFloat (rotation ! 1), PFloat (rotation ! 2), PFloat (center ! 0)],
          [PFloat (rotation ! 3), PFloat (rotation ! 4), PFloat (rotation ! 5), PFloat (center ! 1)],
          [PFloat (rotation ! 6), PFloat (rotation ! 7), PFloat (rotation ! 8), PFloat (center ! 2)],
          [PInt 0, PInt 0, PInt 0, PInt 1]]"
proof -
  have "length rotation = length rs" and "length center = length cs"
    using assms emap_length by blast+
  with assms show ?thesis
    by (auto simp add: prepare_rototranslation_def ebind_def matrix_row_def nth_float_def)
qed

text \<open>
  C9. \<^verbatim>\<open>prepare_rototranslation\<close> raises when the re-parse of the pose text fails, and
  when the parsed transform has a rotation list of fewer than 9 elements or a center list
  of fewer than 3.
\<close>

theorem prepare_rototranslation_raises:
  assumes "getitem original ''pose'' = Inr p"
    and "(\<exists>e. loads_str p = Inl e) \<or>
         (\<exists>data t rs cs. loads_str p = Inr data \<and> getitem data ''transform'' = Inr t \<and>
            getitem t ''rotation'' = Inr (PList rs) \<and> getitem t ''center'' = Inr (PList cs) \<and>
            (length rs < 9 \<or> length cs < 3))"
  shows "\<exists>e'. prepare_rototranslation loads_str sf original = Inl e'"
proof -
  consider (parse) e where "loads_str p = Inl e"
    | (short) data t rs cs where "loads_str p = Inr data" and "getitem data ''transform'' = Inr t"
        and "getitem t ''rotation'' = Inr (PList rs)" and "getitem t ''center'' = Inr (PList cs)"
        and "length rs < 9 \<or> length cs < 3"
    using assms(2) by blast
  then show ?thesis
  proof cases
    case parse
    with assms(1) show ?thesis
      by (simp add: prepare_rototranslation_def ebind_def)
  next
    case h: short
    note short = h(5)
    show ?thesis
    proof (cases "emap (py_float sf) rs")
    case (Inl x)
    with h assms(1) show ?thesis by (simp add: prepare_rototranslation_def ebind_def)
  next
    case r: (Inr rotation)
    show ?thesis
    proof (cases "emap (py_float sf) cs")
      case (Inl x)
      with h assms(1) r show ?thesis by (simp add: prepare_rototranslation_def ebind_def)
    next
      case c: (Inr center)
      have "length rotation = length rs" and "length center = length cs"
        using r c emap_length by blast+
      with short have "length rotation < 9 \<or> length center < 3" by simp
      then have "matrix_row rotation center 0 1 2 0 = Inl IndexError
          \<or> matrix_row rotation center 3 4 5 1 = Inl IndexError
          \<or> matrix_row rotation center 6 7 8 2 = Inl IndexError"
        by (auto simp: matrix_row_def nth_float_def ebind_def)
      with h assms(1) r c show ?thesis
        by (auto simp add: prepare_rototranslation_def ebind_def split: sum.splits)
    qed
  qed
  qed
qed

section \<open>Width of the structure table\<close>

lemma row_width_ge: "r \<in> set rows \<Longrightarrow> length r \<le> row_width rows"
  unfolding row_width_def by (induction rows) auto

lemma pad_row_length: "length r \<le> k \<Longrightarrow> length (pad_row k r) = k"
  by (simp add: pad_row_def)

lemma pad_row_nth:
  "j < k \<Longrightarrow> length r \<le> k \<Longrightarrow> pad_row k r ! j = (if j < length r then Some (r ! j) else None)"
  by (auto simp: pad_row_def nth_append)

lemma astype_pad:
  "\<forall>c\<in>set r. \<exists>x. cell_float sf c = Inr x \<Longrightarrow> x \<in> set (pad_row k r)
     \<Longrightarrow> \<exists>y. astype_float sf x = Inr y"
  unfolding pad_row_def by (cases x) auto

lemma extrapolate_json_wide:
  "structure_X data \<noteq> [] \<Longrightarrow> row_width (structure_X data) \<noteq> 3
     \<Longrightarrow> extrapolate_json sf data = Inl ValueError"
  by (simp add: extrapolate_json_def DataFrame_xyz_def ebind_def)

lemma extrapolate_json_padded:
  assumes "structure_X data \<noteq> []" and "row_width (structure_X data) = 3"
    and "views data \<noteq> []"
    and "\<forall>r\<in>set (structure_X data). \<forall>c\<in>set r. \<exists>x. cell_float sf c = Inr x"
  shows "\<exists>st im ps intr. extrapolate_json sf data = Inr (st, im, ps, intr) \<and>
      length (cells st) = length (structure_X data) \<and>
      (\<forall>i<length (structure_X data). \<forall>j<3. Inr (cells st ! i ! j) =
          (if j < length (structure_X data ! i) then cell_float sf (structure_X data ! i ! j)
           else Inr NaN))"
proof -
  let ?rows = "structure_X data"
  have le: "\<And>r. r \<in> set ?rows \<Longrightarrow> length r \<le> 3"
    using row_width_ge[of _ ?rows] assms(2) by simp
  have "\<And>c. c \<in> set (map (pad_row 3) ?rows) \<Longrightarrow> \<exists>y. emap (astype_float sf) c = Inr y"
  proof -
    fix c assume "c \<in> set (map (pad_row 3) ?rows)"
    then obtain r where r: "r \<in> set ?rows" "c = pad_row 3 r" by auto
    have "\<And>x. x \<in> set c \<Longrightarrow> \<exists>y. astype_float sf x = Inr y"
      using r assms(4) astype_pad by blast
    then show "\<exists>y. emap (astype_float sf) c = Inr y" by (rule emap_total)
  qed
  then obtain fs where fs: "emap (emap (astype_float sf)) (map (pad_row 3) ?rows) = Inr fs"
    using emap_total[of "map (pad_row 3) ?rows" "emap (astype_float sf)"] by blast
  have ex: "extrapolate_json sf data = Inr (\<lparr>columns = [''x'', ''y'', ''z''], cells = fs\<rparr>,
           map (\<lambda>v. (view_poseId v, v)) (views data), poses data, intrinsics data)"
    using assms fs
    by (simp add: extrapolate_json_def DataFrame_xyz_def ebind_def set_index_poseId_def)
  have len: "length fs = length ?rows" using emap_length[OF fs] by simp
  have cellv: "\<forall>i<length ?rows. \<forall>j<3. Inr (fs ! i ! j) =
          (if j < length (?rows ! i) then cell_float sf (?rows ! i ! j) else Inr NaN)"
  proof (intro allI impI)
    fix i j assume i: "i < length ?rows" and j: "j < (3::nat)"
    have li: "length (?rows ! i) \<le> 3" using le i by simp
    have "emap (astype_float sf) (pad_row 3 (?rows ! i)) = Inr (fs ! i)"
      using emap_nth[OF fs, of i] i by simp
    from emap_nth[OF this, of j]
    have "astype_float sf (pad_row 3 (?rows ! i) ! j) = Inr (fs ! i ! j)"
      using j li by (simp add: pad_row_length)
    then show "Inr (fs ! i ! j) =
          (if j < length (?rows ! i) then cell_float sf (?rows ! i ! j) else Inr NaN)"
      using j li by (auto simp: pad_row_nth)
  qed
  show ?thesis using ex len cellv by simp
qed

text \<open>
  C10, as the code has it. With a non-empty \<^verbatim>\<open>structure\<close>, \<^verbatim>\<open>extrapolate_json\<close> raises
  \<^verbatim>\<open>ValueError\<close> whenever the longest \<^verbatim>\<open>X\<close> does not have exactly three elements. When the
  longest has three (and the views are not empty and every coordinate converts), it builds
  the table with one row per point: a shorter \<^verbatim>\<open>X\<close> is kept and filled up with NaN.
\<close>

theorem extrapolate_json_width:
  assumes "structure_X data \<noteq> []"
  shows "(row_width (structure_X data) \<noteq> 3 \<longrightarrow> extrapolate_json sf data = Inl ValueError) \<and>
     (row_width (structure_X data) = 3 \<and> views data \<noteq> [] \<and>
      (\<forall>r\<in>set (structure_X data). \<forall>c\<in>set r. \<exists>x. cell_float sf c = Inr x) \<longrightarrow>
      (\<exists>st im ps intr. extrapolate_json sf data = Inr (st, im, ps, intr) \<and>
         length (cells st) = length (structure_X data) \<and>
         (\<forall>i<length (structure_X data). \<forall>j<3. Inr (cells st ! i ! j) =
            (if j < length (structure_X data ! i) then cell_float sf (structure_X data ! i ! j)
             else Inr NaN))))"
  using assms extrapolate_json_wide extrapolate_json_padded by blast

section \<open>The view table and the assembly loop\<close>

lemma loc_absent: "k \<notin> fst ` set images \<Longrightarrow> loc images k = Inl KeyError"
proof -
  assume "k \<notin> fst ` set images"
  then have "filter (\<lambda>kv. fst kv = k) images = []"
    by (auto simp: filter_empty_conv)
  then show ?thesis by (simp add: loc_def)
qed

lemma loc_many:
  assumes "filter (\<lambda>v. view_poseId v = k) vs = v1 # v2 # rest"
  shows "loc (map (\<lambda>v. (view_poseId v, v)) vs) k = Inr (Many (v1 # v2 # rest))"
proof -
  have "map snd (filter (\<lambda>kv. fst kv = k) (map (\<lambda>v. (view_poseId v, v)) vs))
          = filter (\<lambda>v. view_poseId v = k) vs"
    by (induction vs) auto
  with assms show ?thesis by (simp add: loc_def)
qed

lemma new_pose_many:
  assumes "loc images (poseId i) = Inr (Many (v1 # v2 # rest))"
  shows "\<exists>e. new_pose loads_str sf images intrinsic i = Inl e"
  using assms by (auto simp: new_pose_def ebind_def Let_def split: sum.splits)

text \<open>
  C3, as the code has it. The view table that \<^verbatim>\<open>extrapolate_json\<close> builds has one row per
  element of \<^verbatim>\<open>views\<close>, in the order of the document, and nothing is overwritten. When two
  or more views carry the same \<^verbatim>\<open>poseId\<close>, a lookup of that identifier yields all of them,
  and the record of a pose with that identifier is never assembled: the loop body raises.
\<close>

theorem view_table_keeps_duplicates:
  assumes "extrapolate_json sf data = Inr (st, images, ps, intr)"
    and "filter (\<lambda>v. view_poseId v = k) (views data) = v1 # v2 # rest"
  shows "map snd images = views data \<and> map fst images = map view_poseId (views data) \<and>
         loc images k = Inr (Many (v1 # v2 # rest)) \<and>
         (\<forall>i. poseId i = k \<longrightarrow> (\<exists>e. new_pose loads_str sf images intr i = Inl e))"
proof -
  have im: "images = map (\<lambda>v. (view_poseId v, v)) (views data)"
    using assms(1)
    by (auto simp: extrapolate_json_def ebind_def set_index_poseId_def split: sum.splits if_splits)
  have l: "loc images k = Inr (Many (v1 # v2 # rest))"
    using loc_many[OF assms(2)] im by simp
  show ?thesis using im l new_pose_many by (auto simp: comp_def)
qed

text \<open>
  C8. For a pose whose identifier labels no row of the view table, the loop body raises
  \<^verbatim>\<open>KeyError\<close> at its first statement, and the loop over a pose table that holds such a
  pose ends with an exception: nothing catches it, so no list of records is produced.
\<close>

theorem assembly_lookup_error:
  assumes "i \<in> set ps" and "poseId i \<notin> fst ` set images"
  shows "new_pose loads_str sf images intrinsic i = Inl KeyError \<and>
         (\<exists>e. list_images_of loads_str sf images intrinsic ps = Inl e)"
proof -
  have a: "new_pose loads_str sf images intrinsic i = Inl KeyError"
    using loc_absent[OF assms(2)] by (simp add: new_pose_def ebind_def Let_def)
  have "\<exists>e. emap (new_pose loads_str sf images intrinsic) ps = Inl e"
    using assms(1) a by (rule emap_error)
  then show ?thesis using a by (simp add: list_images_of_def)
qed

section \<open>Shuffle and split\<close>

lemma mset_swap_list: "i < length x \<Longrightarrow> j < length x \<Longrightarrow> mset (swap i j x) = mset x"
  by (simp add: swap_def mset_swap)

lemma length_swap: "length (swap i j x) = length x"
  by (simp add: swap_def)

lemma mset_shuffle_from: "i < length x \<Longrightarrow> mset (shuffle_from randbelow i x) = mset x"
proof (induction i arbitrary: x)
  case 0
  then show ?case by simp
next
  case (Suc i)
  have j: "randbelow (Suc (Suc i)) mod Suc (Suc i) < length x"
    using Suc.prems by (meson Suc_leI less_le_trans mod_less_divisor zero_less_Suc)
  have "mset (shuffle_from randbelow i (swap (Suc i) (randbelow (Suc (Suc i)) mod Suc (Suc i)) x))
      = mset (swap (Suc i) (randbelow (Suc (Suc i)) mod Suc (Suc i)) x)"
    using Suc.prems by (intro Suc.IH) (simp add: length_swap)
  then show ?case using Suc.prems j by (simp add: mset_swap_list)
qed

lemma mset_shuffle: "mset (shuffle randbelow x) = mset x"
  by (cases x) (simp_all add: shuffle_def mset_shuffle_from)

lemma length_shuffle: "length (shuffle randbelow x) = length x"
  using mset_shuffle[of randbelow x] by (metis size_mset)

text \<open>
  C5. The train and val lists partition the assembled records: their lengths add up to
  the number of records, together they hold exactly the records of the list (as a
  multiset), and when the image paths are unique the two sets of paths are disjoint and
  their union is the set of all paths.
\<close>

theorem train_val_partition:
  assumes "train_val randbelow list_images = (train, val)"
  shows "length train + length val = length list_images \<and>
         mset train + mset val = mset list_images \<and>
         (distinct (map image_path list_images) \<longrightarrow>
            set (map image_path train) \<inter> set (map image_path val) = {} \<and>
            set (map image_path train) \<union> set (map image_path val)
              = set (map image_path list_images))"
proof -
  let ?s = "shuffle randbelow list_images"
  let ?k = "split_index (length ?s)"
  have tv: "train = take ?k ?s" "val = drop ?k ?s"
    using assms by (auto simp: train_val_def Let_def)
  have app: "train @ val = ?s" using tv by simp
  have m: "mset train + mset val = mset list_images"
    using app mset_shuffle[of randbelow list_images] by (metis mset_append)
  have len: "length train + length val = length list_images"
    using m by (metis size_mset size_union)
  have d: "distinct (map image_path list_images) \<Longrightarrow>
            set (map image_path train) \<inter> set (map image_path val) = {} \<and>
            set (map image_path train) \<union> set (map image_path val)
              = set (map image_path list_images)"
  proof -
    assume dis: "distinct (map image_path list_images)"
    have "mset (map image_path ?s) = mset (map image_path list_images)"
      using mset_shuffle[of randbelow list_images] by simp
    then have "distinct (map image_path ?s)"
      and "set (map image_path ?s) = set (map image_path list_images)"
      using dis by (metis mset_eq_imp_distinct_iff, metis mset_eq_setD)
    then show ?thesis unfolding app[symmetric] by auto
  qed
  show ?thesis using len m d by blast
qed

subsection \<open>The split index\<close>

text \<open>
  The double-precision product agrees with the exact quotient \<open>4 * n div 5\<close> as long as
  the length stays below \<open>2 ^ 50\<close>: the length is then converted exactly, and the rounding
  of the product never reaches the next integer.
\<close>

lemma bitlength_less: "n < 2 ^ bitlength n"
proof (induction n rule: bitlength.induct)
  case (1 n)
  show ?case
  proof (cases "n = 0")
    case True then show ?thesis by (simp add: bitlength.simps)
  next
    case False
    with 1 have "n div 2 < 2 ^ bitlength (n div 2)" by simp
    then have "n < 2 * 2 ^ bitlength (n div 2)" by linarith
    with False show ?thesis by (simp add: bitlength.simps[of n])
  qed
qed

lemma bitlength_ge: "0 < n \<Longrightarrow> 2 ^ (bitlength n - 1) \<le> n"
proof (induction n rule: bitlength.induct)
  case (1 n)
  then have n: "n \<noteq> 0" by simp
  have bl: "bitlength n = Suc (bitlength (n div 2))" using n by (simp add: bitlength.simps[of n])
  show ?case
  proof (cases "n div 2 = 0")
    case True
    then have "bitlength (n div 2) = 0" by (simp add: bitlength.simps)
    with bl 1 show ?thesis by simp
  next
    case False
    then have pos: "0 < n div 2" by simp
    with 1 n have ih: "2 ^ (bitlength (n div 2) - 1) \<le> n div 2" by simp
    have "bitlength (n div 2) \<noteq> 0" using False by (simp add: bitlength.simps[of "n div 2"])
    then obtain j where j: "bitlength (n div 2) = Suc j" by (cases "bitlength (n div 2)") auto
    with ih have "2 * 2 ^ j \<le> 2 * (n div 2)" by simp
    also have "\<dots> \<le> n" by simp
    finally show ?thesis using bl j by simp
  qed
qed

lemma bitlength_le: "n < 2 ^ k \<Longrightarrow> bitlength n \<le> k"
proof (cases "n = 0")
  case True then show ?thesis by (simp add: bitlength.simps)
next
  case False
  assume "n < 2 ^ k"
  moreover have "(2::nat) ^ (bitlength n - 1) \<le> n" using bitlength_ge[of n] False by simp
  ultimately have "(2::nat) ^ (bitlength n - 1) < 2 ^ k" by (rule le_less_trans[rotated])
  then have "bitlength n - 1 < k" using power_less_imp_less_exp[of 2 "bitlength n - 1" k] by simp
  then show ?thesis by simp
qed

lemma round53_exact: "m < 2 ^ 53 \<Longrightarrow> round53 m = m"
proof -
  assume "m < 2 ^ 53"
  then have "bitlength m - 53 = 0" using bitlength_le[of m 53] by simp
  then show ?thesis by (simp add: round53_def)
qed


lemma split_index_eq:
  assumes n50: "n < 2 ^ 50"
  shows "split_index n = 4 * n div 5"
proof -
  define M where "M = (3602879701896397::nat)"
  define T where "T = (2::nat) ^ 52"
  define P where "P = n * M"
  define k where "k = 4 * n div 5"
  define s where "s = bitlength P - 53"
  define q where "q = P div 2 ^ s"
  define r where "r = P mod 2 ^ s"
  have M5: "5 * M = 4 * T + 1" and MT: "M < T" by (simp_all add: M_def T_def)
  have n4: "4 * n < T" using n50 by (simp add: T_def)
  have rn: "round53 n = n" using n50 by (intro round53_exact) simp
  have Pqr: "P = q * 2 ^ s + r" unfolding q_def r_def by (rule div_mult_mod_eq[symmetric])
  have rlt: "r < 2 ^ s" by (simp add: r_def)
  have k1: "5 * k \<le> 4 * n" and k2: "4 * n < 5 * k + 5" by (simp_all add: k_def)
  have P5: "5 * P = 4 * n * T + n"
  proof -
    have "5 * P = n * (5 * M)" by (simp add: P_def)
    also have "\<dots> = n * (4 * T + 1)" by (simp only: M5)
    also have "\<dots> = 4 * n * T + n" by (simp add: algebra_simps)
    finally show ?thesis .
  qed
  have PnT: "P \<le> n * T" unfolding P_def using MT by simp
  have Plt: "P < 2 ^ 102"
  proof -
    have "n * T < 2 ^ 50 * T" using n50 by (intro mult_strict_right_mono) (simp_all add: T_def)
    also have "\<dots> = 2 ^ 102" by (simp add: T_def)
    finally show ?thesis using PnT by simp
  qed
  have s49: "s \<le> 49" using bitlength_le[OF Plt] by (simp add: s_def)
  define d where "d = 52 - s"
  have Td: "T = 2 ^ d * 2 ^ s" using s49 by (simp add: T_def d_def flip: power_add)
  have lowP: "k * T \<le> P"
  proof -
    have "5 * (k * T) = (5 * k) * T" by simp
    also have "\<dots> \<le> (4 * n) * T" using k1 by (intro mult_right_mono) simp_all
    also have "\<dots> \<le> 5 * P" using P5 by simp
    finally show ?thesis by simp
  qed
  have lowq: "k * T \<le> q * 2 ^ s"
  proof -
    have "(k * 2 ^ d) * 2 ^ s \<le> P" using lowP by (simp add: Td mult.assoc)
    then have "k * 2 ^ d \<le> q" unfolding q_def by (simp add: less_eq_div_iff_mult_less_eq)
    then have "(k * 2 ^ d) * 2 ^ s \<le> q * 2 ^ s" by (intro mult_right_mono) simp_all
    then show ?thesis by (simp add: Td mult.assoc)
  qed
  have upP5: "5 * P + T \<le> 5 * ((k + 1) * T) + n"
  proof -
    have "4 * n \<le> 5 * k + 4" using k2 by simp
    then have "(4 * n) * T \<le> (5 * k + 4) * T" by (intro mult_right_mono) simp_all
    then have "5 * P \<le> (5 * k + 4) * T + n" using P5 by simp
    then show ?thesis by (simp add: algebra_simps)
  qed
  have upP: "P < (k + 1) * T" using upP5 n4 by simp
  define R where "R = round53 P"
  have Rcases: "R = q * 2 ^ s \<or> (R = (q + 1) * 2 ^ s \<and> 2 ^ s \<le> 2 * r)"
    unfolding R_def round53_def Let_def s_def[symmetric] q_def[symmetric] r_def[symmetric]
    by auto
  have Rlow: "k * T \<le> R" using Rcases lowq by (auto simp: algebra_simps)
  have Rup: "R < (k + 1) * T"
  proof -
    from Rcases show ?thesis
    proof
      assume "R = q * 2 ^ s"
      then have "R \<le> P" using Pqr by simp
      then show ?thesis using upP by simp
    next
      assume up: "R = (q + 1) * 2 ^ s \<and> 2 ^ s \<le> 2 * r"
      show ?thesis
      proof (rule ccontr)
        assume "\<not> R < (k + 1) * T"
        then have ge: "(k + 1) * T \<le> (q + 1) * 2 ^ s" using up by simp
        have "2 * ((q + 1) * 2 ^ s) \<le> 2 * P + 2 ^ s"
          using Pqr up by (simp add: algebra_simps)
        with ge have g2: "2 * ((k + 1) * T) \<le> 2 * P + 2 ^ s" by simp
        have spos: "0 < s"
        proof (rule ccontr)
          assume "\<not> 0 < s"
          then have "r = 0" using rlt by simp
          with up show False by simp
        qed
        have Ppos: "0 < P" using spos by (cases "P = 0") (simp_all add: s_def bitlength.simps[of 0])
        have "bitlength P - 1 = s + 52" using spos by (simp add: s_def)
        with bitlength_ge[OF Ppos] have "2 ^ (s + 52) \<le> P" by simp
        then have "2 ^ s * T \<le> n * M" by (simp add: power_add T_def P_def)
        also have "\<dots> < n * T" using MT Ppos by (simp add: P_def)
        finally have sn: "2 ^ s < n" by simp
        from g2 have "10 * ((k + 1) * T) \<le> 10 * P + 5 * 2 ^ s" by simp
        with upP5 have "2 * T \<le> 2 * n + 5 * 2 ^ s" by simp
        with sn have "2 * T < 7 * n" by simp
        with n4 show False by simp
      qed
    qed
  qed
  have "R div T = k"
    using Rlow Rup by (intro div_nat_eqI) (simp_all add: algebra_simps)
  then show ?thesis
    by (simp add: split_index_def rn R_def P_def M_def T_def k_def)
qed


lemma split_index_le:
  assumes "n < 2 ^ 50"
  shows "split_index n \<le> n"
  unfolding split_index_eq[OF assms] by simp

lemma floor_four_fifths: "nat \<lfloor>0.8 * real n\<rfloor> = 4 * n div 5"
proof -
  have "0.8 * real n = real (4 * n) / real 5" by simp
  then have "\<lfloor>0.8 * real n\<rfloor> = int (4 * n div 5)"
    by (simp only: floor_divide_of_nat_eq)
  then show ?thesis by simp
qed

text \<open>
  The bound is there for a reason: at a length of \<open>2 ^ 52\<close>, which no list in memory
  reaches, the product rounds up to the next integer.
\<close>

lemma bitlength_eq:
  assumes "2 ^ k \<le> n" and "n < 2 ^ Suc k"
  shows "bitlength n = Suc k"
proof -
  have "(2::nat) ^ k < 2 ^ bitlength n" using assms(1) bitlength_less[of n] by (rule le_less_trans)
  then have "k < bitlength n" by (rule power_less_imp_less_exp[rotated]) simp
  moreover have "bitlength n \<le> Suc k" using assms(2) by (rule bitlength_le)
  ultimately show ?thesis by simp
qed

lemma split_index_large:
  "split_index (2 ^ 52) = 3602879701896397 \<and> 4 * 2 ^ 52 div 5 = (3602879701896396::nat)"
proof -
  have a: "round53 (2 ^ 52) = 2 ^ 52" by (rule round53_exact) simp
  have b: "bitlength (2 ^ 52 * 3602879701896397) = Suc 103"
    by (rule bitlength_eq) simp_all
  have c: "round53 (2 ^ 52 * 3602879701896397) = 2 ^ 52 * 3602879701896397"
    unfolding round53_def b by (simp add: Let_def)
  show ?thesis unfolding split_index_def a c by simp
qed

text \<open>
  C4. Split ratio: for a list of \<open>n\<close> assembled image records, \<open>n\<close> below \<open>2 ^ 50\<close>, the
  train list has exactly \<open>floor (0.8 * n)\<close> elements and the val list has the remaining
  \<open>n - floor (0.8 * n)\<close>, whatever the shuffle draws.
\<close>

theorem train_val_split_ratio:
  assumes "length list_images < 2 ^ 50"
    and "train_val randbelow list_images = (train, val)"
  shows "length train = nat \<lfloor>0.8 * real (length list_images)\<rfloor> \<and>
         length val = length list_images - nat \<lfloor>0.8 * real (length list_images)\<rfloor>"
proof -
  let ?n = "length list_images"
  let ?s = "shuffle randbelow list_images"
  have n: "length ?s = ?n" by (rule length_shuffle)
  have tv: "train = take (split_index ?n) ?s" "val = drop (split_index ?n) ?s"
    using assms(2) by (auto simp: train_val_def Let_def n)
  have k: "split_index ?n = nat \<lfloor>0.8 * real ?n\<rfloor>"
    using split_index_eq[OF assms(1)] by (simp only: floor_four_fifths)
  have le: "split_index ?n \<le> ?n" using assms(1) by (rule split_index_le)
  have "length train = split_index ?n" using tv(1) n le by simp
  moreover have "length val = ?n - split_index ?n" using tv(2) n by simp
  ultimately show ?thesis by (simp only: k)
qed

section \<open>The examples, evaluated\<close>

lemma extrapolate_json_valid:
  "extrapolate_json reject_text valid_document =
   Inr (\<lparr>columns = [''x'', ''y'', ''z''], cells = [[Fl 1, Fl 2, Fl 3], [Fl 4, Fl 5, Fl 6]]\<rparr>,
        [(Text ''7'', view_a)], [pose_7], [intrinsic_0])"
  by (simp add: extrapolate_json_def valid_document_def DataFrame_xyz_def row_width_def ebind_def
      pad_row_def set_index_poseId_def view_a_def)

lemma extrapolate_json_repeated:
  "extrapolate_json reject_text repeated_view_document =
   Inr (\<lparr>columns = [''x'', ''y'', ''z''], cells = [[Fl 1, Fl 2, Fl 3], [Fl 4, Fl 5, Fl 6]]\<rparr>,
        [(Text ''7'', view_a), (Text ''7'', view_b)], [pose_7], [intrinsic_0])"
  by (simp add: extrapolate_json_def repeated_view_document_def valid_document_def
      DataFrame_xyz_def row_width_def ebind_def pad_row_def set_index_poseId_def
      view_a_def view_b_def)

text \<open>
  C1 on the code. On a well-formed document with two points, one view, one pose and one
  intrinsic record the loader succeeds, and \<^verbatim>\<open>convert_sfm_to_parquet\<close> ends with
  \<^verbatim>\<open>KeyError\<close> before the point-cloud file is written: there is no file whose rows could
  be compared with \<^verbatim>\<open>structure\<close>.
\<close>

theorem convert_valid_document_writes_nothing:
  "convert_sfm_to_parquet Inr reject_text draw_zero valid_document no_outputs
     = (Some KeyError, no_outputs)
   \<and> point_cloud_parquet (snd (convert_sfm_to_parquet Inr reject_text draw_zero valid_document
        no_outputs)) = None"
  by (simp add: convert_sfm_to_parquet_def extrapolate_json_valid column_list_def ebind_def
      no_outputs_def)

theorem convert_raises_KeyError_witness:
  "extrapolate_json reject_text repeated_view_document =
   Inr (\<lparr>columns = [''x'', ''y'', ''z''], cells = [[Fl 1, Fl 2, Fl 3], [Fl 4, Fl 5, Fl 6]]\<rparr>,
        [(Text ''7'', view_a), (Text ''7'', view_b)], [pose_7], [intrinsic_0]) \<and>
   convert_sfm_to_parquet unparsable reject_text draw_zero repeated_view_document no_outputs
     = (Some KeyError, no_outputs)"
  using convert_raises_KeyError[OF extrapolate_json_repeated, of unparsable draw_zero no_outputs]
    extrapolate_json_repeated
  by simp

theorem prepare_rototranslation_matrix_witness:
  "prepare_rototranslation Inr reject_text example_pose =
   Inr [[PFloat (Fl 1), PFloat (Fl 0), PFloat (Fl 0), PFloat (Fl 1)],
        [PFloat (Fl 0), PFloat (Fl 1), PFloat (Fl 0), PFloat (Fl 2)],
        [PFloat (Fl 0), PFloat (Fl 0), PFloat (Fl 1), PFloat (Fl 3)],
        [PInt 0, PInt 0, PInt 0, PInt 1]]"
  using prepare_rototranslation_matrix[of example_pose
     "example_transform [PInt 1, PInt 0, PInt 0, PInt 0, PInt 1, PInt 0, PInt 0, PInt 0, PInt 1]
        [PInt 1, PInt 2, PInt 3]"
     Inr _
     "PDict [(''rotation'', PList [PInt 1, PInt 0, PInt 0, PInt 0, PInt 1, PInt 0, PInt 0, PInt 0, PInt 1]),
             (''center'', PList [PInt 1, PInt 2, PInt 3])]"
     "[PInt 1, PInt 0, PInt 0, PInt 0, PInt 1, PInt 0, PInt 0, PInt 0, PInt 1]"
     "[PInt 1, PInt 2, PInt 3]"
     reject_text "[Fl 1, Fl 0, Fl 0, Fl 0, Fl 1, Fl 0, Fl 0, Fl 0, Fl 1]" "[Fl 1, Fl 2, Fl 3]"]
  by (simp add: example_pose_def example_transform_def ebind_def)

theorem prepare_rototranslation_raises_witness:
  "(\<exists>e. prepare_rototranslation Inr reject_text short_pose = Inl e) \<and>
   (\<exists>e. prepare_rototranslation unparsable reject_text example_pose = Inl e)"
  using prepare_rototranslation_raises[of short_pose
          "example_transform [PInt 1, PInt 0] [PInt 1, PInt 2, PInt 3]" Inr reject_text]
        prepare_rototranslation_raises[of example_pose
           "example_transform [PInt 1, PInt 0, PInt 0, PInt 0, PInt 1, PInt 0, PInt 0, PInt 0, PInt 1]
              [PInt 1, PInt 2, PInt 3]" unparsable reject_text]
  by (simp add: short_pose_def example_pose_def example_transform_def unparsable_def)

text \<open>
  The document whose second point has two coordinates only: the loader does not raise, it
  returns the table with that row filled up with NaN.
\<close>

theorem extrapolate_json_ragged_counterexample:
  "extrapolate_json reject_text ragged_document =
   Inr (\<lparr>columns = [''x'', ''y'', ''z''], cells = [[Fl 1, Fl 2, Fl 3], [Fl 4, Fl 5, NaN]]\<rparr>,
        [(Text ''7'', view_a)], [pose_7], [intrinsic_0])"
  by (simp add: extrapolate_json_def ragged_document_def valid_document_def DataFrame_xyz_def
      row_width_def ebind_def pad_row_def set_index_poseId_def view_a_def)

theorem extrapolate_json_width_witness:
  "extrapolate_json reject_text wide_document = Inl ValueError \<and>
   (\<exists>st im ps intr. extrapolate_json reject_text valid_document = Inr (st, im, ps, intr) \<and>
       length (cells st) = 2)"
proof -
  have w: "structure_X wide_document \<noteq> []" "row_width (structure_X wide_document) \<noteq> 3"
    by (simp_all add: wide_document_def valid_document_def row_width_def)
  have v: "structure_X valid_document \<noteq> []" "row_width (structure_X valid_document) = 3"
     "views valid_document \<noteq> []" "length (structure_X valid_document) = 2"
     "\<forall>r\<in>set (structure_X valid_document). \<forall>c\<in>set r. \<exists>x. cell_float reject_text c = Inr x"
    by (simp_all add: valid_document_def row_width_def)
  from extrapolate_json_width[OF w(1), of reject_text] w(2)
  have a: "extrapolate_json reject_text wide_document = Inl ValueError" by blast
  from extrapolate_json_width[OF v(1), of reject_text] v(2,3,5)
  obtain st im ps intr where "extrapolate_json reject_text valid_document = Inr (st, im, ps, intr)"
      "length (cells st) = length (structure_X valid_document)" by blast
  then show ?thesis using a v(4) by auto
qed

text \<open>
  The document with two views of the same \<^verbatim>\<open>poseId\<close>: the view table holds both rows, and
  the lookup of that identifier returns both, not the later one alone.
\<close>

theorem views_duplicate_counterexample:
  "extrapolate_json reject_text repeated_view_document =
   Inr (\<lparr>columns = [''x'', ''y'', ''z''], cells = [[Fl 1, Fl 2, Fl 3], [Fl 4, Fl 5, Fl 6]]\<rparr>,
        [(Text ''7'', view_a), (Text ''7'', view_b)], [pose_7], [intrinsic_0])
   \<and> loc [(Text ''7'', view_a), (Text ''7'', view_b)] (Text ''7'') = Inr (Many [view_a, view_b])
   \<and> loc [(Text ''7'', view_a), (Text ''7'', view_b)] (Text ''7'') \<noteq> Inr (One view_b)"
  using extrapolate_json_repeated by (simp add: loc_def)

theorem view_table_keeps_duplicates_witness:
  "loc [(Text ''7'', view_a), (Text ''7'', view_b)] (Text ''7'') = Inr (Many [view_a, view_b]) \<and>
   (\<exists>e. new_pose Inr reject_text [(Text ''7'', view_a), (Text ''7'', view_b)] [intrinsic_0] pose_7
          = Inl e)"
proof -
  have f: "filter (\<lambda>v. view_poseId v = Text ''7'') (views repeated_view_document)
             = view_a # view_b # []"
    by (simp add: repeated_view_document_def valid_document_def view_a_def view_b_def)
  have p: "poseId pose_7 = Text ''7''" by (simp add: pose_7_def)
  from view_table_keeps_duplicates[OF extrapolate_json_repeated f, of Inr] p
  show ?thesis by blast
qed

theorem assembly_lookup_error_witness:
  "new_pose Inr reject_text [(Text ''7'', view_a)] [intrinsic_0] pose_8 = Inl KeyError \<and>
   (\<exists>e. list_images_of Inr reject_text [(Text ''7'', view_a)] [intrinsic_0] [pose_7, pose_8]
          = Inl e)"
  using assembly_lookup_error[of pose_8 "[pose_7, pose_8]" "[(Text ''7'', view_a)]" Inr
          reject_text "[intrinsic_0]"]
  by (simp add: pose_8_def pose_7_def)

theorem train_val_partition_witness:
  "length (fst (train_val draw_zero five_images)) + length (snd (train_val draw_zero five_images)) = 5
   \<and> set (map image_path (fst (train_val draw_zero five_images)))
       \<inter> set (map image_path (snd (train_val draw_zero five_images))) = {}"
  using train_val_partition[of draw_zero five_images "fst (train_val draw_zero five_images)"
          "snd (train_val draw_zero five_images)"]
  by (simp add: five_images_def example_image_def)

theorem train_val_split_ratio_witness:
  "length five_images < 2 ^ 50
   \<and> length (fst (train_val draw_zero five_images)) = 4
   \<and> length (snd (train_val draw_zero five_images)) = 1"
proof -
  have n: "length five_images = 5" by (simp add: five_images_def)
  have b: "length five_images < 2 ^ 50" by (simp add: n)
  have f: "nat \<lfloor>0.8 * real (length five_images)\<rfloor> = 4" by (simp add: n)
  from train_val_split_ratio[OF b, of draw_zero "fst (train_val draw_zero five_images)"
         "snd (train_val draw_zero five_images)"]
  show ?thesis using b by (simp add: f n)
qed

end
